theory Spec2Isabelle
  imports Complex_Main "HOL-Library.Product_Lexorder" "HOL-Library.Multiset" "HOL-Library.Log_Nat"
begin

section \<open>game.py: the rules of generalised tic-tac-toe\<close>

text \<open>
  A cell is \<open>'X'\<close> (\<open>SymX\<close>), \<open>'O'\<close> (\<open>SymO\<close>) or \<open>None\<close>; a board is a tuple of rows; a state is the
  triple \<open>(board, m, k)\<close>. Python integers are unbounded, so \<open>m\<close>, \<open>k\<close> and the
  coordinates of an action are \<open>int\<close>. Exceptions are values: every function that
  can raise returns \<open>error + result\<close>, with \<open>Inl\<close> for the exception.
\<close>

datatype sym = SymX | SymO

type_synonym cell = "sym option"
type_synonym board = "cell list list"
type_synonym action = "int \<times> int"
type_synonym state = "board \<times> int \<times> int"

datatype error = ValueError string | IndexError | OverflowError

text \<open>Tuple indexing \<open>xs[i]\<close>: a negative index counts from the end, an index out of
  range raises \<open>IndexError\<close>.\<close>

definition py_index :: "'a list \<Rightarrow> int \<Rightarrow> error + 'a" where
  "py_index xs i =
     (if 0 \<le> i \<and> i < int (length xs) then Inr (xs ! nat i)
      else if i < 0 \<and> - int (length xs) \<le> i then Inr (xs ! nat (int (length xs) + i))
      else Inl IndexError)"

text \<open>\<open>board[r][c]\<close>\<close>

definition cell_at :: "board \<Rightarrow> int \<Rightarrow> int \<Rightarrow> error + cell" where
  "cell_at b r c = (case py_index b r of Inl e \<Rightarrow> Inl e | Inr row \<Rightarrow> py_index row c)"

text \<open>Slicing \<open>xs[lo:hi]\<close> never raises: both bounds are clamped to the sequence.\<close>

definition clamp_index :: "int \<Rightarrow> int \<Rightarrow> nat" where
  "clamp_index n i = nat (if i < 0 then max (i + n) 0 else min i n)"

definition py_slice :: "'a list \<Rightarrow> int \<Rightarrow> int \<Rightarrow> 'a list" where
  "py_slice xs lo hi =
     (let n = int (length xs); l = clamp_index n lo; h = clamp_index n hi
      in take (h - l) (drop l xs))"

text \<open>A comprehension evaluates its elements in order and stops at the first exception.\<close>

fun collect :: "(error + 'a) list \<Rightarrow> error + 'a list" where
  "collect [] = Inr []"
| "collect (Inl e # xs) = Inl e"
| "collect (Inr x # xs) = (case collect xs of Inl e \<Rightarrow> Inl e | Inr ys \<Rightarrow> Inr (x # ys))"

text \<open>\<open>for r in range(m) for c in range(m)\<close>\<close>

definition positions :: "int \<Rightarrow> action list" where
  "positions m = concat (map (\<lambda>r. map (\<lambda>c. (r, c)) [0..m - 1]) [0..m - 1])"

definition initial_state :: "int \<Rightarrow> int \<Rightarrow> state" where
  "initial_state m k = (replicate (nat m) (replicate (nat m) None), m, k)"

definition player :: "state \<Rightarrow> error + sym" where
  "player state = (case state of (board, m, k) \<Rightarrow>
     (case collect (map (\<lambda>(r, c). cell_at board r c) (positions m)) of
        Inl e \<Rightarrow> Inl e
      | Inr cs \<Rightarrow> Inr (if length (filter (\<lambda>x. x \<noteq> None) cs) mod 2 = 0 then SymX else SymO)))"

definition actions :: "state \<Rightarrow> error + action list" where
  "actions state = (case state of (board, m, k) \<Rightarrow>
     (case collect (map (\<lambda>(r, c). map_sum id (\<lambda>x. ((r, c), x)) (cell_at board r c)) (positions m)) of
        Inl e \<Rightarrow> Inl e
      | Inr pcs \<Rightarrow> Inr (sort (map fst (filter (\<lambda>(p, x). x = None) pcs)))))"

definition result :: "state \<Rightarrow> action \<Rightarrow> error + state" where
  "result state action = (case state of (board, m, k) \<Rightarrow> (case action of (r, c) \<Rightarrow>
     (if \<not> (0 \<le> r \<and> r < m \<and> 0 \<le> c \<and> c < m) then Inl (ValueError ''Action out of bounds'')
      else (case cell_at board r c of
              Inl e \<Rightarrow> Inl e
            | Inr (Some x) \<Rightarrow> Inl (ValueError ''Action not legal'')
            | Inr None \<Rightarrow>
                (case player state of
                   Inl e \<Rightarrow> Inl e
                 | Inr cur \<Rightarrow>
                     Inr (board[nat r := (board ! nat r)[nat c := Some cur]], m, k))))))"

definition window_winner :: "cell list \<Rightarrow> sym option" where
  "window_winner window =
     (if list_all (\<lambda>cell. cell = Some SymX) window then Some SymX
      else if list_all (\<lambda>cell. cell = Some SymO) window then Some SymO
      else None)"

text \<open>The windows of one row or column that \<open>winner\<close> tests: \<open>row[s:s + k]\<close> for
  \<open>s\<close> in \<open>range(m - k + 1)\<close>, kept when its length is \<open>k\<close>.\<close>

definition line_windows :: "int \<Rightarrow> int \<Rightarrow> cell list \<Rightarrow> cell list list" where
  "line_windows m k line =
     filter (\<lambda>w. int (length w) = k) (map (\<lambda>s. py_slice line s (s + k)) [0..m - k])"

text \<open>The windows of one diagonal: none when the diagonal is shorter than \<open>k\<close>.\<close>

definition diag_windows :: "int \<Rightarrow> cell list \<Rightarrow> cell list list" where
  "diag_windows k diag =
     (if int (length diag) \<ge> k
      then map (\<lambda>s. py_slice diag s (s + k)) [0..int (length diag) - k]
      else [])"

text \<open>The first window won by a player, scanning in order.\<close>

fun first_window_winner :: "cell list list \<Rightarrow> sym option" where
  "first_window_winner [] = None"
| "first_window_winner (w # ws) =
     (case window_winner w of Some p \<Rightarrow> Some p | None \<Rightarrow> first_window_winner ws)"

text \<open>\<open>while r < m and c < m: diag.append(board[r][c]); r += 1; c += 1\<close>\<close>

function diag_down :: "board \<Rightarrow> int \<Rightarrow> int \<Rightarrow> int \<Rightarrow> error + cell list" where
  "diag_down board m r c =
     (if r < m \<and> c < m
      then (case cell_at board r c of
              Inl e \<Rightarrow> Inl e
            | Inr x \<Rightarrow> (case diag_down board m (r + 1) (c + 1) of
                          Inl e \<Rightarrow> Inl e
                        | Inr xs \<Rightarrow> Inr (x # xs)))
      else Inr [])"
  by pat_completeness auto
termination
  by (relation "measure (\<lambda>(board, m, r, c). nat (m - r))") auto

text \<open>\<open>while r < m and c >= 0: diag.append(board[r][c]); r += 1; c -= 1\<close>\<close>

function diag_up :: "board \<Rightarrow> int \<Rightarrow> int \<Rightarrow> int \<Rightarrow> error + cell list" where
  "diag_up board m r c =
     (if r < m \<and> c \<ge> 0
      then (case cell_at board r c of
              Inl e \<Rightarrow> Inl e
            | Inr x \<Rightarrow> (case diag_up board m (r + 1) (c - 1) of
                          Inl e \<Rightarrow> Inl e
                        | Inr xs \<Rightarrow> Inr (x # xs)))
      else Inr [])"
  by pat_completeness auto
termination
  by (relation "measure (\<lambda>(board, m, r, c). nat (m - r))") auto

declare diag_down.simps [simp del] diag_up.simps [simp del]

text \<open>The lines in the order \<open>winner\<close> and \<open>evaluate\<close> build them. The flag says
  whether the line is a diagonal (tested with \<open>diag_windows\<close>) or a row or column
  (tested with \<open>line_windows\<close>); building a line can raise.\<close>

definition board_lines :: "state \<Rightarrow> (bool \<times> (error + cell list)) list" where
  "board_lines state = (case state of (board, m, k) \<Rightarrow>
       map (\<lambda>r. (False, py_index board r)) [0..m - 1]
     @ map (\<lambda>c. (False, collect (map (\<lambda>r. cell_at board r c) [0..m - 1]))) [0..m - 1]
     @ map (\<lambda>start_col. (True, diag_down board m 0 start_col)) [0..m - 1]
     @ map (\<lambda>start_row. (True, diag_down board m start_row 0)) [1..m - 1]
     @ map (\<lambda>start_col. (True, diag_up board m 0 start_col)) [0..m - 1]
     @ map (\<lambda>start_col. (True, diag_up board m start_col (m - 1))) [1..m - 1])"

definition windows_of :: "int \<Rightarrow> int \<Rightarrow> bool \<Rightarrow> cell list \<Rightarrow> cell list list" where
  "windows_of m k is_diag line = (if is_diag then diag_windows k line else line_windows m k line)"

text \<open>Scanning the lines: the first exception or the first winner ends the scan.\<close>

fun scan_lines :: "int \<Rightarrow> int \<Rightarrow> (bool \<times> (error + cell list)) list \<Rightarrow> error + sym option" where
  "scan_lines m k [] = Inr None"
| "scan_lines m k ((is_diag, Inl e) # rest) = Inl e"
| "scan_lines m k ((is_diag, Inr line) # rest) =
     (case first_window_winner (windows_of m k is_diag line) of
        Some p \<Rightarrow> Inr (Some p)
      | None \<Rightarrow> scan_lines m k rest)"

definition winner :: "state \<Rightarrow> error + sym option" where
  "winner state = (case state of (board, m, k) \<Rightarrow> scan_lines m k (board_lines state))"

text \<open>The loop of \<open>terminal\<close> returns \<open>False\<close> at the first empty cell.\<close>

fun all_filled :: "(error + cell) list \<Rightarrow> error + bool" where
  "all_filled [] = Inr True"
| "all_filled (Inl e # rest) = Inl e"
| "all_filled (Inr None # rest) = Inr False"
| "all_filled (Inr (Some x) # rest) = all_filled rest"

definition terminal :: "state \<Rightarrow> error + bool" where
  "terminal state =
     (case winner state of
        Inl e \<Rightarrow> Inl e
      | Inr (Some w) \<Rightarrow> Inr True
      | Inr None \<Rightarrow> (case state of (board, m, k) \<Rightarrow>
          all_filled (map (\<lambda>(r, c). cell_at board r c) (positions m))))"

definition utility :: "state \<Rightarrow> error + int option" where
  "utility state =
     (case winner state of
        Inl e \<Rightarrow> Inl e
      | Inr (Some SymX) \<Rightarrow> Inr (Some 1)
      | Inr (Some SymO) \<Rightarrow> Inr (Some (- 1))
      | Inr None \<Rightarrow>
          (case terminal state of
             Inl e \<Rightarrow> Inl e
           | Inr True \<Rightarrow> Inr (Some 0)
           | Inr False \<Rightarrow> Inr None))"


section \<open>Python floats\<close>

text \<open>Search values are utilities, heuristic scores, and the two sentinels
  \<open>float('-inf')\<close> and \<open>float('inf')\<close>.\<close>

datatype val = NegInf | Fin rat | PosInf

instantiation val :: linorder
begin

fun less_eq_val :: "val \<Rightarrow> val \<Rightarrow> bool" where
  "less_eq_val NegInf y = True"
| "less_eq_val (Fin a) NegInf = False"
| "less_eq_val (Fin a) (Fin b) = (a \<le> b)"
| "less_eq_val (Fin a) PosInf = True"
| "less_eq_val PosInf NegInf = False"
| "less_eq_val PosInf (Fin b) = False"
| "less_eq_val PosInf PosInf = True"

definition less_val :: "val \<Rightarrow> val \<Rightarrow> bool" where
  "less_val x y = (x \<le> y \<and> \<not> y \<le> x)"

instance
proof
  fix x y z :: val
  show "(x < y) = (x \<le> y \<and> \<not> y \<le> x)" by (simp add: less_val_def)
  show "x \<le> x" by (cases x) simp_all
  show "x \<le> y \<Longrightarrow> y \<le> z \<Longrightarrow> x \<le> z"
    by (cases x; cases y; cases z) simp_all
  show "x \<le> y \<Longrightarrow> y \<le> x \<Longrightarrow> x = y"
    by (cases x; cases y) simp_all
  show "x \<le> y \<or> y \<le> x"
    by (cases x; cases y) auto
qed

end

text \<open>
  A Python \<open>float\<close> is an IEEE 754 binary64 number. The finite ones are the rationals
  \<open>n * 2 ^ e\<close> with \<open>\<bar>n\<bar> < 2 ^ 53\<close> and \<open>- 1074 \<le> e \<le> 971\<close>; \<open>val\<close> holds them
  with the two infinities (the two zeros are not told apart: they compare equal, and
  the code only compares). Every operation returns the exact result rounded to the
  nearest float, ties to the even significand, and a result of magnitude \<open>2 ^ 1024\<close>
  or more becomes an infinity.
\<close>

definition pow2 :: "int \<Rightarrow> rat" where
  "pow2 e = (if 0 \<le> e then 2 ^ nat e else 1 / 2 ^ nat (- e))"

lemma pow2_code [code]:
  "pow2 e = (if 0 \<le> e then of_int (push_bit (nat e) 1) else 1 / of_int (push_bit (nat (- e)) 1))"
  by (simp add: pow2_def push_bit_eq_mult)

text \<open>The exponent \<open>e\<close> with \<open>2 ^ e \<le> a < 2 ^ (e + 1)\<close>, for \<open>a > 0\<close>.\<close>

definition binade :: "rat \<Rightarrow> int" where
  "binade a = (case quotient_of a of (p, q) \<Rightarrow>
     (let e = bitlen p - bitlen q in if pow2 e \<le> a then e else e - 1))"

definition round_half_even :: "rat \<Rightarrow> int" where
  "round_half_even x =
     (let f = \<lfloor>x\<rfloor>; d = x - of_int f
      in if d < 1 / 2 then f else if 1 / 2 < d then f + 1 else if even f then f else f + 1)"

text \<open>A fraction \<open>p / 2 ^ j\<close> in lowest terms with \<open>\<bar>p\<bar> < 2 ^ 53\<close> and \<open>j \<le> 1074\<close> is a
  float already, and rounding leaves it as it is.\<close>

definition representable :: "rat \<Rightarrow> bool" where
  "representable q = (case quotient_of q of (p, d) \<Rightarrow>
     \<bar>p\<bar> < 2 ^ 53 \<and> bitlen d \<le> 1075 \<and> d = 2 ^ nat (bitlen d - 1))"

definition round_double :: "rat \<Rightarrow> val" where
  "round_double q =
     (if representable q then Fin q
      else (let a = \<bar>q\<bar>;
                ulp = pow2 (max (binade a) (- 1022) - 52);
                v = of_int (round_half_even (a / ulp)) * ulp
            in if 1024 \<le> binade v then (if 0 < q then PosInf else NegInf)
               else Fin (if 0 < q then v else - v)))"

text \<open>Converting an \<open>int\<close> to \<open>float\<close> rounds in the same way, but raises
  \<open>OverflowError\<close> where the rounded value would be infinite.\<close>

definition int_to_float :: "int \<Rightarrow> error + rat" where
  "int_to_float n = (case round_double (of_int n) of Fin x \<Rightarrow> Inr x | _ \<Rightarrow> Inl OverflowError)"

text \<open>\<open>x + y\<close>, \<open>x / y\<close> and \<open>-x\<close> for a float \<open>x\<close> and a finite float \<open>y\<close> (positive,
  for the division).\<close>

fun float_add :: "val \<Rightarrow> rat \<Rightarrow> val" where
  "float_add (Fin x) y = round_double (x + y)"
| "float_add PosInf y = PosInf"
| "float_add NegInf y = NegInf"

fun float_div :: "val \<Rightarrow> rat \<Rightarrow> val" where
  "float_div (Fin x) y = round_double (x / y)"
| "float_div PosInf y = PosInf"
| "float_div NegInf y = NegInf"

fun float_neg :: "val \<Rightarrow> val" where
  "float_neg (Fin x) = Fin (- x)"
| "float_neg PosInf = NegInf"
| "float_neg NegInf = PosInf"

text \<open>Three values of Python reproduced: \<open>1e19 + 180.0 == 1e19\<close> (the sum is rounded
  back), \<open>float(10 ** 23) == 99999999999999991611392\<close>, and \<open>1.0 / 10.0\<close> is the float
  \<open>3602879701896397 / 2 ^ 55\<close>.\<close>

lemma float_add_rounds: "float_add (Fin (10 ^ 19)) 180 = Fin (10 ^ 19)"
  by code_simp

lemma int_to_float_rounds: "int_to_float (10 ^ 23) = Inr 99999999999999991611392"
  by code_simp

lemma float_div_rounds: "float_div (Fin 1) 10 = Fin (3602879701896397 / 36028797018963968)"
  by code_simp

section \<open>heuristic.py: the positional evaluation\<close>

text \<open>\<open>window_value\<close> returns the float \<open>0.0\<close> or an \<open>int\<close>, a power of ten or its
  negation.\<close>

datatype number = PyFloat rat | PyInt int

definition window_value :: "cell list \<Rightarrow> number" where
  "window_value window =
     (let x_count = length (filter (\<lambda>c. c = Some SymX) window);
          o_count = length (filter (\<lambda>c. c = Some SymO) window)
      in if x_count > 0 \<and> o_count > 0 then PyFloat 0
         else if x_count > 0 then PyInt (10 ^ x_count)
         else if o_count > 0 then PyInt (- (10 ^ o_count))
         else PyFloat 0)"

text \<open>\<open>total += window_value(w)\<close>, with \<open>total\<close> (here \<open>tot\<close>) a float: an \<open>int\<close> is converted
  first, which can raise.\<close>

definition add_number :: "val \<Rightarrow> number \<Rightarrow> error + val" where
  "add_number tot x =
     (case x of
        PyFloat y \<Rightarrow> Inr (float_add tot y)
      | PyInt n \<Rightarrow> (case int_to_float n of Inl e \<Rightarrow> Inl e | Inr y \<Rightarrow> Inr (float_add tot y)))"

text \<open>Unlike \<open>winner\<close>, \<open>evaluate\<close> scores every slice of a row or column,
  whatever its length.\<close>

definition eval_windows :: "int \<Rightarrow> int \<Rightarrow> bool \<Rightarrow> cell list \<Rightarrow> cell list list" where
  "eval_windows m k is_diag line =
     (if is_diag then diag_windows k line
      else map (\<lambda>s. py_slice line s (s + k)) [0..m - k])"

text \<open>The windows of one line, added in order to the pair \<open>(total, windows)\<close>.\<close>

fun add_windows :: "cell list list \<Rightarrow> val \<times> nat \<Rightarrow> error + val \<times> nat" where
  "add_windows [] acc = Inr acc"
| "add_windows (w # ws) (tot, windows) =
     (case add_number tot (window_value w) of
        Inl e \<Rightarrow> Inl e
      | Inr tot' \<Rightarrow> add_windows ws (tot', windows + 1))"

text \<open>The lines in program order: each is built (which can raise) and then scored.\<close>

fun eval_lines ::
  "int \<Rightarrow> int \<Rightarrow> (bool \<times> (error + cell list)) list \<Rightarrow> val \<times> nat \<Rightarrow> error + val \<times> nat" where
  "eval_lines m k [] acc = Inr acc"
| "eval_lines m k ((is_diag, Inl e) # rest) acc = Inl e"
| "eval_lines m k ((is_diag, Inr line) # rest) acc =
     (case add_windows (eval_windows m k is_diag line) acc of
        Inl e \<Rightarrow> Inl e
      | Inr acc' \<Rightarrow> eval_lines m k rest acc')"

definition evaluate :: "state \<Rightarrow> string \<Rightarrow> error + val" where
  "evaluate state perspective = (case state of (board, m, k) \<Rightarrow>
     (case eval_lines m k (board_lines state) (Fin 0, 0) of
        Inl e \<Rightarrow> Inl e
      | Inr (tot, windows) \<Rightarrow>
          (if windows = 0 then Inr (Fin 0)
           else (case int_to_float (int windows) of
                   Inl e \<Rightarrow> Inl e
                 | Inr w \<Rightarrow>
                     (let score = float_div tot w
                      in Inr (if perspective = ''X'' then score else float_neg score))))))"

section \<open>search.py: move ordering\<close>

text \<open>
  The sort key of an action is the tuple \<open>(base, -probe, a)\<close>, compared
  lexicographically. The \<open>try\<close> block encloses both \<open>result\<close> and \<open>evaluate\<close>,
  and \<open>except Exception\<close> catches whatever either raises.
\<close>

definition priority :: "state \<Rightarrow> bool \<Rightarrow> action \<Rightarrow> int \<times> val \<times> action" where
  "priority state use_heuristic_probe a = (case state of (board, m, k) \<Rightarrow> (case a of (r, c) \<Rightarrow>
     (let center = (m div 2, m div 2);
          base = (if a = center then 0
                  else if (r = 0 \<or> r = m - 1) \<and> (c = 0 \<or> c = m - 1) then 1
                  else if (r = 0 \<or> r = m - 1) \<or> (c = 0 \<or> c = m - 1) then 2
                  else 3);
          probe = (if use_heuristic_probe
                   then (case result state a of
                           Inl e \<Rightarrow> Fin 0
                         | Inr s \<Rightarrow> (case evaluate s ''X'' of Inl e \<Rightarrow> Fin 0 | Inr p \<Rightarrow> p))
                   else Fin 0)
      in (base, float_neg probe, a))))"

definition order_moves :: "state \<Rightarrow> bool \<Rightarrow> error + action list" where
  "order_moves state use_heuristic_probe =
     (case actions state of
        Inl e \<Rightarrow> Inl e
      | Inr moves \<Rightarrow> Inr (sort_key (priority state use_heuristic_probe) moves))"

text \<open>
  \<open>_order_moves\<close> reaches \<open>result\<close> and \<open>evaluate\<close> through the global names of the
  module, looked up at each call. \<open>order_moves_with\<close> is the same code with the two
  names as parameters \<open>res\<close> and \<open>ev\<close>, so that the handler can be studied under a
  rules oracle that refuses an action; \<open>order_moves\<close> is its instance at the
  repository's own functions (lemma \<open>order_moves_with_result\<close> below).
\<close>

definition priority_with ::
  "(state \<Rightarrow> action \<Rightarrow> error + state) \<Rightarrow> (state \<Rightarrow> error + val) \<Rightarrow> state \<Rightarrow> bool \<Rightarrow> action
     \<Rightarrow> int \<times> val \<times> action" where
  "priority_with res ev state use_heuristic_probe a = (case state of (board, m, k) \<Rightarrow> (case a of (r, c) \<Rightarrow>
     (let center = (m div 2, m div 2);
          base = (if a = center then 0
                  else if (r = 0 \<or> r = m - 1) \<and> (c = 0 \<or> c = m - 1) then 1
                  else if (r = 0 \<or> r = m - 1) \<or> (c = 0 \<or> c = m - 1) then 2
                  else 3);
          probe = (if use_heuristic_probe
                   then (case res state a of
                           Inl e \<Rightarrow> Fin 0
                         | Inr s \<Rightarrow> (case ev s of Inl e \<Rightarrow> Fin 0 | Inr p \<Rightarrow> p))
                   else Fin 0)
      in (base, float_neg probe, a))))"

definition order_moves_with ::
  "(state \<Rightarrow> action \<Rightarrow> error + state) \<Rightarrow> (state \<Rightarrow> error + val) \<Rightarrow> state \<Rightarrow> bool
     \<Rightarrow> error + action list" where
  "order_moves_with res ev state use_heuristic_probe =
     (case actions state of
        Inl e \<Rightarrow> Inl e
      | Inr moves \<Rightarrow> Inr (sort_key (priority_with res ev state use_heuristic_probe) moves))"

section \<open>search.py: the instrumentation sink\<close>

record Instrument =
  node_count :: int

definition new_Instrument :: Instrument where
  "new_Instrument = \<lparr>node_count = 0\<rparr>"

definition tick :: "Instrument \<Rightarrow> Instrument" where
  "tick instrument = instrument\<lparr>node_count := node_count instrument + 1\<rparr>"

definition reset :: "Instrument \<Rightarrow> Instrument" where
  "reset instrument = instrument\<lparr>node_count := 0\<rparr>"

text \<open>The number of empty cells of the board, the measure of every recursion below.\<close>

definition empties :: "state \<Rightarrow> nat" where
  "empties state = (case state of (board, m, k) \<Rightarrow>
     sum_list (map (\<lambda>row. length (filter (\<lambda>x. x = None) row)) board))"


text \<open>A successful \<open>result\<close> fills exactly one empty cell.\<close>

lemma py_index_nonneg:
  "0 \<le> i \<Longrightarrow> py_index xs i = (if nat i < length xs then Inr (xs ! nat i) else Inl IndexError)"
  by (auto simp: py_index_def)

lemma cell_at_nonneg:
  "0 \<le> r \<Longrightarrow> 0 \<le> c \<Longrightarrow>
   cell_at b r c = (if nat r < length b \<and> nat c < length (b ! nat r)
                    then Inr (b ! nat r ! nat c) else Inl IndexError)"
  by (simp add: cell_at_def py_index_nonneg)

lemma cell_at_Inr:
  "0 \<le> r \<Longrightarrow> 0 \<le> c \<Longrightarrow>
   cell_at b r c = Inr x \<longleftrightarrow>
     nat r < length b \<and> nat c < length (b ! nat r) \<and> x = b ! nat r ! nat c"
  by (auto simp: cell_at_nonneg)

lemma count_None_update:
  "i < length row \<Longrightarrow> row ! i = None \<Longrightarrow>
   Suc (length (filter (\<lambda>x. x = None) (row[i := Some p]))) = length (filter (\<lambda>x. x = None) row)"
proof (induction row arbitrary: i)
  case Nil
  then show ?case by simp
next
  case (Cons x row)
  then show ?case by (cases i) auto
qed

lemma sum_list_update_cell:
  "j < length b \<Longrightarrow> Suc (f y) = f (b ! j) \<Longrightarrow>
   Suc (sum_list (map f (b[j := y]))) = sum_list (map (f :: 'a \<Rightarrow> nat) b)"
proof (induction b arbitrary: j)
  case Nil
  then show ?case by simp
next
  case (Cons x b)
  then show ?case by (cases j) auto
qed

lemma result_Inr:
  assumes "result (b, m, k) (r, c) = Inr s'"
  shows "0 \<le> r \<and> r < m \<and> 0 \<le> c \<and> c < m \<and> nat r < length b \<and> nat c < length (b ! nat r)
         \<and> b ! nat r ! nat c = None
         \<and> (\<exists>cur. player (b, m, k) = Inr cur
                \<and> s' = (b[nat r := (b ! nat r)[nat c := Some cur]], m, k))"
proof -
  from assms have rng: "0 \<le> r \<and> r < m \<and> 0 \<le> c \<and> c < m"
    by (auto simp: result_def split: if_splits)
  from assms rng have "cell_at b r c = Inr None"
    by (auto simp: result_def split: if_splits sum.splits option.splits)
  with rng have "nat r < length b \<and> nat c < length (b ! nat r) \<and> b ! nat r ! nat c = None"
    by (simp add: cell_at_Inr)
  moreover from assms rng
  have "\<exists>cur. player (b, m, k) = Inr cur \<and> s' = (b[nat r := (b ! nat r)[nat c := Some cur]], m, k)"
    by (auto simp: result_def split: if_splits sum.splits option.splits)
  ultimately show ?thesis using rng by blast
qed

lemma result_empties: "result s a = Inr s' \<Longrightarrow> Suc (empties s') = empties s"
proof -
  assume res: "result s a = Inr s'"
  obtain b m k where s: "s = (b, m, k)" by (cases s) auto
  obtain r c where a: "a = (r, c)" by (cases a) auto
  from result_Inr [OF res [unfolded s a]]
  obtain cur where b: "nat r < length b" "nat c < length (b ! nat r)" "b ! nat r ! nat c = None"
    and s': "s' = (b[nat r := (b ! nat r)[nat c := Some cur]], m, k)"
    by blast
  have "Suc (length (filter (\<lambda>x. x = None) ((b ! nat r)[nat c := Some cur])))
        = length (filter (\<lambda>x. x = None) (b ! nat r))"
    using b by (intro count_None_update) auto
  from sum_list_update_cell [of "nat r" b "\<lambda>row. length (filter (\<lambda>x. x = None) row)", OF b(1) this]
  show ?thesis by (simp add: s s' empties_def)
qed

lemma result_empties_less: "result s a = Inr s' \<Longrightarrow> empties s' < empties s"
  using result_empties [of s a s'] by simp

section \<open>search.py: plain minimax\<close>

text \<open>
  \<open>max_value\<close> and \<open>min_value\<close> are the two closures of \<open>minimax\<close>; each ticks the
  sink on entry. Their \<open>for\<close> loops are the functions \<open>_loop\<close>, over the actions
  still to visit, with the running value \<open>v\<close>. An exception raised by the rules
  ends the search.
\<close>

function minimax_max_value :: "state \<Rightarrow> Instrument \<Rightarrow> error + (val \<times> Instrument)"
  and minimax_max_loop :: "state \<Rightarrow> action list \<Rightarrow> val \<Rightarrow> Instrument \<Rightarrow> error + (val \<times> Instrument)"
  and minimax_min_value :: "state \<Rightarrow> Instrument \<Rightarrow> error + (val \<times> Instrument)"
  and minimax_min_loop :: "state \<Rightarrow> action list \<Rightarrow> val \<Rightarrow> Instrument \<Rightarrow> error + (val \<times> Instrument)"
where
  "minimax_max_value s instrument =
     (case utility s of
        Inl e \<Rightarrow> Inl e
      | Inr (Some u) \<Rightarrow> Inr (Fin (of_int u), tick instrument)
      | Inr None \<Rightarrow>
          (case actions s of
             Inl e \<Rightarrow> Inl e
           | Inr moves \<Rightarrow> minimax_max_loop s moves NegInf (tick instrument)))"
| "minimax_max_loop s [] v instrument = Inr (v, instrument)"
| "minimax_max_loop s (a # moves) v instrument =
     (case result s a of
        Inl e \<Rightarrow> Inl e
      | Inr s' \<Rightarrow>
          (case minimax_min_value s' instrument of
             Inl e \<Rightarrow> Inl e
           | Inr (v', instrument') \<Rightarrow> minimax_max_loop s moves (max v v') instrument'))"
| "minimax_min_value s instrument =
     (case utility s of
        Inl e \<Rightarrow> Inl e
      | Inr (Some u) \<Rightarrow> Inr (Fin (of_int u), tick instrument)
      | Inr None \<Rightarrow>
          (case actions s of
             Inl e \<Rightarrow> Inl e
           | Inr moves \<Rightarrow> minimax_min_loop s moves PosInf (tick instrument)))"
| "minimax_min_loop s [] v instrument = Inr (v, instrument)"
| "minimax_min_loop s (a # moves) v instrument =
     (case result s a of
        Inl e \<Rightarrow> Inl e
      | Inr s' \<Rightarrow>
          (case minimax_max_value s' instrument of
             Inl e \<Rightarrow> Inl e
           | Inr (v', instrument') \<Rightarrow> minimax_min_loop s moves (min v v') instrument'))"
  by pat_completeness auto
termination
  apply (relation "measures
     [\<lambda>x. case x of Inl (Inl (s, i)) \<Rightarrow> empties s | Inl (Inr (s, ms, v, i)) \<Rightarrow> empties s
               | Inr (Inl (s, i)) \<Rightarrow> empties s | Inr (Inr (s, ms, v, i)) \<Rightarrow> empties s,
      \<lambda>x. case x of Inl (Inl (s, i)) \<Rightarrow> 1 | Inl (Inr (s, ms, v, i)) \<Rightarrow> 0
               | Inr (Inl (s, i)) \<Rightarrow> 1 | Inr (Inr (s, ms, v, i)) \<Rightarrow> 0,
      \<lambda>x. case x of Inl (Inl (s, i)) \<Rightarrow> 0 | Inl (Inr (s, ms, v, i)) \<Rightarrow> length ms
               | Inr (Inl (s, i)) \<Rightarrow> 0 | Inr (Inr (s, ms, v, i)) \<Rightarrow> length ms]")
  apply (auto dest: result_empties_less)
  done

declare minimax_max_value.simps [simp del] minimax_min_value.simps [simp del]

text \<open>The top-level loops of \<open>minimax\<close>: \<open>best_val\<close> and \<open>best_action\<close> are
  replaced when the value is strictly better, or equal with a smaller action.\<close>

fun minimax_top_max ::
  "state \<Rightarrow> action list \<Rightarrow> val \<Rightarrow> action option \<Rightarrow> Instrument
   \<Rightarrow> error + ((val \<times> action option) \<times> Instrument)" where
  "minimax_top_max state [] best_val best_action instrument =
     Inr ((best_val, best_action), instrument)"
| "minimax_top_max state (a # moves) best_val best_action instrument =
     (case result state a of
        Inl e \<Rightarrow> Inl e
      | Inr s' \<Rightarrow>
          (case minimax_min_value s' instrument of
             Inl e \<Rightarrow> Inl e
           | Inr (v, instrument') \<Rightarrow>
               (if v > best_val \<or> (v = best_val \<and> (case best_action of None \<Rightarrow> True | Some b \<Rightarrow> a < b))
                then minimax_top_max state moves v (Some a) instrument'
                else minimax_top_max state moves best_val best_action instrument')))"

fun minimax_top_min ::
  "state \<Rightarrow> action list \<Rightarrow> val \<Rightarrow> action option \<Rightarrow> Instrument
   \<Rightarrow> error + ((val \<times> action option) \<times> Instrument)" where
  "minimax_top_min state [] best_val best_action instrument =
     Inr ((best_val, best_action), instrument)"
| "minimax_top_min state (a # moves) best_val best_action instrument =
     (case result state a of
        Inl e \<Rightarrow> Inl e
      | Inr s' \<Rightarrow>
          (case minimax_max_value s' instrument of
             Inl e \<Rightarrow> Inl e
           | Inr (v, instrument') \<Rightarrow>
               (if v < best_val \<or> (v = best_val \<and> (case best_action of None \<Rightarrow> True | Some b \<Rightarrow> a < b))
                then minimax_top_min state moves v (Some a) instrument'
                else minimax_top_min state moves best_val best_action instrument')))"

text \<open>\<open>minimax(state, instrument=None)\<close>: a missing sink is replaced by a fresh one,
  and the sink is reset before anything else. The final sink is returned with the
  pair \<open>(best_val, best_action)\<close>.\<close>

definition minimax ::
  "state \<Rightarrow> Instrument option \<Rightarrow> error + ((val \<times> action option) \<times> Instrument)" where
  "minimax state instrument =
     (let instrument = reset (case instrument of None \<Rightarrow> new_Instrument | Some i \<Rightarrow> i)
      in case player state of
           Inl e \<Rightarrow> Inl e
         | Inr cur \<Rightarrow>
             (case actions state of
                Inl e \<Rightarrow> Inl e
              | Inr moves \<Rightarrow>
                  (if cur = SymX then minimax_top_max state moves NegInf None instrument
                   else minimax_top_min state moves PosInf None instrument)))"


section \<open>search.py: minimax with alpha-beta pruning\<close>

text \<open>
  The closures of \<open>minimax_ab\<close> also read \<open>use_ordering\<close>. A loop returns from the
  enclosing function as soon as the running value leaves the window.
\<close>

function minimax_ab_max_value ::
    "bool \<Rightarrow> state \<Rightarrow> val \<Rightarrow> val \<Rightarrow> Instrument \<Rightarrow> error + (val \<times> Instrument)"
  and minimax_ab_max_loop ::
    "bool \<Rightarrow> state \<Rightarrow> action list \<Rightarrow> val \<Rightarrow> val \<Rightarrow> val \<Rightarrow> Instrument \<Rightarrow> error + (val \<times> Instrument)"
  and minimax_ab_min_value ::
    "bool \<Rightarrow> state \<Rightarrow> val \<Rightarrow> val \<Rightarrow> Instrument \<Rightarrow> error + (val \<times> Instrument)"
  and minimax_ab_min_loop ::
    "bool \<Rightarrow> state \<Rightarrow> action list \<Rightarrow> val \<Rightarrow> val \<Rightarrow> val \<Rightarrow> Instrument \<Rightarrow> error + (val \<times> Instrument)"
where
  "minimax_ab_max_value use_ordering s alpha beta instrument =
     (case utility s of
        Inl e \<Rightarrow> Inl e
      | Inr (Some u) \<Rightarrow> Inr (Fin (of_int u), tick instrument)
      | Inr None \<Rightarrow>
          (case order_moves s use_ordering of
             Inl e \<Rightarrow> Inl e
           | Inr moves \<Rightarrow>
               minimax_ab_max_loop use_ordering s moves NegInf alpha beta (tick instrument)))"
| "minimax_ab_max_loop use_ordering s [] v alpha beta instrument = Inr (v, instrument)"
| "minimax_ab_max_loop use_ordering s (a # moves) v alpha beta instrument =
     (case result s a of
        Inl e \<Rightarrow> Inl e
      | Inr s' \<Rightarrow>
          (case minimax_ab_min_value use_ordering s' alpha beta instrument of
             Inl e \<Rightarrow> Inl e
           | Inr (v', instrument') \<Rightarrow>
               (if max v v' \<ge> beta then Inr (max v v', instrument')
                else minimax_ab_max_loop use_ordering s moves (max v v')
                       (max alpha (max v v')) beta instrument')))"
| "minimax_ab_min_value use_ordering s alpha beta instrument =
     (case utility s of
        Inl e \<Rightarrow> Inl e
      | Inr (Some u) \<Rightarrow> Inr (Fin (of_int u), tick instrument)
      | Inr None \<Rightarrow>
          (case order_moves s use_ordering of
             Inl e \<Rightarrow> Inl e
           | Inr moves \<Rightarrow>
               minimax_ab_min_loop use_ordering s moves PosInf alpha beta (tick instrument)))"
| "minimax_ab_min_loop use_ordering s [] v alpha beta instrument = Inr (v, instrument)"
| "minimax_ab_min_loop use_ordering s (a # moves) v alpha beta instrument =
     (case result s a of
        Inl e \<Rightarrow> Inl e
      | Inr s' \<Rightarrow>
          (case minimax_ab_max_value use_ordering s' alpha beta instrument of
             Inl e \<Rightarrow> Inl e
           | Inr (v', instrument') \<Rightarrow>
               (if min v v' \<le> alpha then Inr (min v v', instrument')
                else minimax_ab_min_loop use_ordering s moves (min v v')
                       alpha (min beta (min v v')) instrument')))"
  by pat_completeness auto
termination
  apply (relation "measures
     [\<lambda>x. case x of Inl (Inl (ord, s, al, be, i)) \<Rightarrow> empties s | Inl (Inr (ord, s, ms, v, al, be, i)) \<Rightarrow> empties s
               | Inr (Inl (ord, s, al, be, i)) \<Rightarrow> empties s | Inr (Inr (ord, s, ms, v, al, be, i)) \<Rightarrow> empties s,
      \<lambda>x. case x of Inl (Inl (ord, s, al, be, i)) \<Rightarrow> 1 | Inl (Inr (ord, s, ms, v, al, be, i)) \<Rightarrow> 0
               | Inr (Inl (ord, s, al, be, i)) \<Rightarrow> 1 | Inr (Inr (ord, s, ms, v, al, be, i)) \<Rightarrow> 0,
      \<lambda>x. case x of Inl (Inl (ord, s, al, be, i)) \<Rightarrow> 0 | Inl (Inr (ord, s, ms, v, al, be, i)) \<Rightarrow> length ms
               | Inr (Inl (ord, s, al, be, i)) \<Rightarrow> 0 | Inr (Inr (ord, s, ms, v, al, be, i)) \<Rightarrow> length ms]")
  apply (auto dest: result_empties_less)
  done

declare minimax_ab_max_value.simps [simp del] minimax_ab_min_value.simps [simp del]

text \<open>The top-level loops of \<open>minimax_ab\<close>: no cutoff, and the bound of the side to
  move follows \<open>best_val\<close>.\<close>

fun minimax_ab_top_max ::
  "bool \<Rightarrow> state \<Rightarrow> action list \<Rightarrow> val \<Rightarrow> action option \<Rightarrow> val \<Rightarrow> val \<Rightarrow> Instrument
   \<Rightarrow> error + ((val \<times> action option) \<times> Instrument)" where
  "minimax_ab_top_max use_ordering state [] best_val best_action alpha beta instrument =
     Inr ((best_val, best_action), instrument)"
| "minimax_ab_top_max use_ordering state (a # moves) best_val best_action alpha beta instrument =
     (case result state a of
        Inl e \<Rightarrow> Inl e
      | Inr s' \<Rightarrow>
          (case minimax_ab_min_value use_ordering s' alpha beta instrument of
             Inl e \<Rightarrow> Inl e
           | Inr (val, instrument') \<Rightarrow>
               (if val > best_val \<or> (val = best_val \<and> (case best_action of None \<Rightarrow> True | Some b \<Rightarrow> a < b))
                then minimax_ab_top_max use_ordering state moves val (Some a)
                       (max alpha val) beta instrument'
                else minimax_ab_top_max use_ordering state moves best_val best_action
                       (max alpha best_val) beta instrument')))"

fun minimax_ab_top_min ::
  "bool \<Rightarrow> state \<Rightarrow> action list \<Rightarrow> val \<Rightarrow> action option \<Rightarrow> val \<Rightarrow> val \<Rightarrow> Instrument
   \<Rightarrow> error + ((val \<times> action option) \<times> Instrument)" where
  "minimax_ab_top_min use_ordering state [] best_val best_action alpha beta instrument =
     Inr ((best_val, best_action), instrument)"
| "minimax_ab_top_min use_ordering state (a # moves) best_val best_action alpha beta instrument =
     (case result state a of
        Inl e \<Rightarrow> Inl e
      | Inr s' \<Rightarrow>
          (case minimax_ab_max_value use_ordering s' alpha beta instrument of
             Inl e \<Rightarrow> Inl e
           | Inr (val, instrument') \<Rightarrow>
               (if val < best_val \<or> (val = best_val \<and> (case best_action of None \<Rightarrow> True | Some b \<Rightarrow> a < b))
                then minimax_ab_top_min use_ordering state moves val (Some a)
                       alpha (min beta val) instrument'
                else minimax_ab_top_min use_ordering state moves best_val best_action
                       alpha (min beta best_val) instrument')))"

definition minimax_ab ::
  "state \<Rightarrow> Instrument option \<Rightarrow> bool \<Rightarrow> error + ((val \<times> action option) \<times> Instrument)" where
  "minimax_ab state instrument use_ordering =
     (let instrument = reset (case instrument of None \<Rightarrow> new_Instrument | Some i \<Rightarrow> i)
      in case player state of
           Inl e \<Rightarrow> Inl e
         | Inr cur \<Rightarrow>
             (case order_moves state use_ordering of
                Inl e \<Rightarrow> Inl e
              | Inr moves \<Rightarrow>
                  (if cur = SymX
                   then minimax_ab_top_max use_ordering state moves NegInf None NegInf PosInf instrument
                   else minimax_ab_top_min use_ordering state moves PosInf None NegInf PosInf instrument)))"

section \<open>search.py: depth-limited search\<close>

text \<open>
  \<open>eval_fn\<close> is any function from states to scores that may raise; the default is
  \<open>evaluate\<close>. The depth \<open>d\<close> is a Python integer, and the cutoff test is \<open>d == 0\<close>.
\<close>

type_synonym eval_fn = "state \<Rightarrow> error + val"

definition evaluate_default :: eval_fn where
  "evaluate_default s = evaluate s ''X''"

function search_max_value ::
    "eval_fn \<Rightarrow> bool \<Rightarrow> state \<Rightarrow> val \<Rightarrow> val \<Rightarrow> int \<Rightarrow> Instrument \<Rightarrow> error + (val \<times> Instrument)"
  and search_max_loop ::
    "eval_fn \<Rightarrow> bool \<Rightarrow> state \<Rightarrow> action list \<Rightarrow> val \<Rightarrow> val \<Rightarrow> val \<Rightarrow> int \<Rightarrow> Instrument
     \<Rightarrow> error + (val \<times> Instrument)"
  and search_min_value ::
    "eval_fn \<Rightarrow> bool \<Rightarrow> state \<Rightarrow> val \<Rightarrow> val \<Rightarrow> int \<Rightarrow> Instrument \<Rightarrow> error + (val \<times> Instrument)"
  and search_min_loop ::
    "eval_fn \<Rightarrow> bool \<Rightarrow> state \<Rightarrow> action list \<Rightarrow> val \<Rightarrow> val \<Rightarrow> val \<Rightarrow> int \<Rightarrow> Instrument
     \<Rightarrow> error + (val \<times> Instrument)"
where
  "search_max_value eval_fn use_ordering s alpha beta d instrument =
     (case utility s of
        Inl e \<Rightarrow> Inl e
      | Inr (Some u) \<Rightarrow> Inr (Fin (of_int u), tick instrument)
      | Inr None \<Rightarrow>
          (if d = 0 then (case eval_fn s of Inl e \<Rightarrow> Inl e | Inr x \<Rightarrow> Inr (x, tick instrument))
           else (case order_moves s use_ordering of
                   Inl e \<Rightarrow> Inl e
                 | Inr moves \<Rightarrow>
                     search_max_loop eval_fn use_ordering s moves NegInf alpha beta d
                       (tick instrument))))"
| "search_max_loop eval_fn use_ordering s [] v alpha beta d instrument = Inr (v, instrument)"
| "search_max_loop eval_fn use_ordering s (a # moves) v alpha beta d instrument =
     (case result s a of
        Inl e \<Rightarrow> Inl e
      | Inr s' \<Rightarrow>
          (case search_min_value eval_fn use_ordering s' alpha beta (d - 1) instrument of
             Inl e \<Rightarrow> Inl e
           | Inr (v', instrument') \<Rightarrow>
               (if max v v' \<ge> beta then Inr (max v v', instrument')
                else search_max_loop eval_fn use_ordering s moves (max v v')
                       (max alpha (max v v')) beta d instrument')))"
| "search_min_value eval_fn use_ordering s alpha beta d instrument =
     (case utility s of
        Inl e \<Rightarrow> Inl e
      | Inr (Some u) \<Rightarrow> Inr (Fin (of_int u), tick instrument)
      | Inr None \<Rightarrow>
          (if d = 0 then (case eval_fn s of Inl e \<Rightarrow> Inl e | Inr x \<Rightarrow> Inr (x, tick instrument))
           else (case order_moves s use_ordering of
                   Inl e \<Rightarrow> Inl e
                 | Inr moves \<Rightarrow>
                     search_min_loop eval_fn use_ordering s moves PosInf alpha beta d
                       (tick instrument))))"
| "search_min_loop eval_fn use_ordering s [] v alpha beta d instrument = Inr (v, instrument)"
| "search_min_loop eval_fn use_ordering s (a # moves) v alpha beta d instrument =
     (case result s a of
        Inl e \<Rightarrow> Inl e
      | Inr s' \<Rightarrow>
          (case search_max_value eval_fn use_ordering s' alpha beta (d - 1) instrument of
             Inl e \<Rightarrow> Inl e
           | Inr (v', instrument') \<Rightarrow>
               (if min v v' \<le> alpha then Inr (min v v', instrument')
                else search_min_loop eval_fn use_ordering s moves (min v v')
                       alpha (min beta (min v v')) d instrument')))"
  by pat_completeness auto
termination
  apply (relation "measures
     [\<lambda>x. case x of Inl (Inl (ev, ord, s, al, be, d, i)) \<Rightarrow> empties s | Inl (Inr (ev, ord, s, ms, v, al, be, d, i)) \<Rightarrow> empties s
               | Inr (Inl (ev, ord, s, al, be, d, i)) \<Rightarrow> empties s | Inr (Inr (ev, ord, s, ms, v, al, be, d, i)) \<Rightarrow> empties s,
      \<lambda>x. case x of Inl (Inl (ev, ord, s, al, be, d, i)) \<Rightarrow> 1 | Inl (Inr (ev, ord, s, ms, v, al, be, d, i)) \<Rightarrow> 0
               | Inr (Inl (ev, ord, s, al, be, d, i)) \<Rightarrow> 1 | Inr (Inr (ev, ord, s, ms, v, al, be, d, i)) \<Rightarrow> 0,
      \<lambda>x. case x of Inl (Inl (ev, ord, s, al, be, d, i)) \<Rightarrow> 0 | Inl (Inr (ev, ord, s, ms, v, al, be, d, i)) \<Rightarrow> length ms
               | Inr (Inl (ev, ord, s, al, be, d, i)) \<Rightarrow> 0 | Inr (Inr (ev, ord, s, ms, v, al, be, d, i)) \<Rightarrow> length ms]")
  apply (auto dest: result_empties_less)
  done

declare search_max_value.simps [simp del] search_min_value.simps [simp del]

fun search_top_max ::
  "eval_fn \<Rightarrow> bool \<Rightarrow> state \<Rightarrow> action list \<Rightarrow> val \<Rightarrow> action option \<Rightarrow> val \<Rightarrow> val \<Rightarrow> int
   \<Rightarrow> Instrument \<Rightarrow> error + ((val \<times> action option) \<times> Instrument)" where
  "search_top_max eval_fn use_ordering state [] best_val best_action alpha beta depth instrument =
     Inr ((best_val, best_action), instrument)"
| "search_top_max eval_fn use_ordering state (a # moves) best_val best_action alpha beta depth instrument =
     (case result state a of
        Inl e \<Rightarrow> Inl e
      | Inr s' \<Rightarrow>
          (case search_min_value eval_fn use_ordering s' alpha beta (depth - 1) instrument of
             Inl e \<Rightarrow> Inl e
           | Inr (val, instrument') \<Rightarrow>
               (if val > best_val \<or> (val = best_val \<and> (case best_action of None \<Rightarrow> True | Some b \<Rightarrow> a < b))
                then search_top_max eval_fn use_ordering state moves val (Some a)
                       (max alpha val) beta depth instrument'
                else search_top_max eval_fn use_ordering state moves best_val best_action
                       (max alpha best_val) beta depth instrument')))"

fun search_top_min ::
  "eval_fn \<Rightarrow> bool \<Rightarrow> state \<Rightarrow> action list \<Rightarrow> val \<Rightarrow> action option \<Rightarrow> val \<Rightarrow> val \<Rightarrow> int
   \<Rightarrow> Instrument \<Rightarrow> error + ((val \<times> action option) \<times> Instrument)" where
  "search_top_min eval_fn use_ordering state [] best_val best_action alpha beta depth instrument =
     Inr ((best_val, best_action), instrument)"
| "search_top_min eval_fn use_ordering state (a # moves) best_val best_action alpha beta depth instrument =
     (case result state a of
        Inl e \<Rightarrow> Inl e
      | Inr s' \<Rightarrow>
          (case search_max_value eval_fn use_ordering s' alpha beta (depth - 1) instrument of
             Inl e \<Rightarrow> Inl e
           | Inr (val, instrument') \<Rightarrow>
               (if val < best_val \<or> (val = best_val \<and> (case best_action of None \<Rightarrow> True | Some b \<Rightarrow> a < b))
                then search_top_min eval_fn use_ordering state moves val (Some a)
                       alpha (min beta val) depth instrument'
                else search_top_min eval_fn use_ordering state moves best_val best_action
                       alpha (min beta best_val) depth instrument')))"

definition search ::
  "state \<Rightarrow> int \<Rightarrow> eval_fn \<Rightarrow> Instrument option \<Rightarrow> bool
   \<Rightarrow> error + ((val \<times> action option) \<times> Instrument)" where
  "search state depth eval_fn instrument use_ordering =
     (let instrument = reset (case instrument of None \<Rightarrow> new_Instrument | Some i \<Rightarrow> i)
      in case player state of
           Inl e \<Rightarrow> Inl e
         | Inr cur \<Rightarrow>
             (case order_moves state use_ordering of
                Inl e \<Rightarrow> Inl e
              | Inr moves \<Rightarrow>
                  (if cur = SymX
                   then search_top_max eval_fn use_ordering state moves NegInf None NegInf PosInf
                          depth instrument
                   else search_top_min eval_fn use_ordering state moves PosInf None NegInf PosInf
                          depth instrument)))"


section \<open>Valid states\<close>

text \<open>
  A state is valid when its board is an \<open>m\<close> by \<open>m\<close> grid, as \<open>initial_state\<close> builds
  it and \<open>result\<close> keeps it. \<open>cell_of\<close> reads a cell of a valid board and
  \<open>empty_cells\<close> lists the empty cells in row-major order.
\<close>

definition wf_state :: "state \<Rightarrow> bool" where
  "wf_state state = (case state of (board, m, k) \<Rightarrow>
     length board = nat m \<and> list_all (\<lambda>row. length row = nat m) board)"

lemma collect_map_Inr:
  "(\<And>x. x \<in> set xs \<Longrightarrow> f x = Inr (g x)) \<Longrightarrow> collect (map f xs) = Inr (map g xs)"
  by (induction xs) auto

lemma collect_Inr_length: "collect xs = Inr ys \<Longrightarrow> length ys = length xs"
proof (induction xs arbitrary: ys)
  case Nil
  then show ?case by simp
next
  case (Cons x xs)
  then show ?case by (cases x) (auto split: sum.splits)
qed

lemma set_positions: "set (positions m) = {(r, c). 0 \<le> r \<and> r < m \<and> 0 \<le> c \<and> c < m}"
  by (auto simp: positions_def)

lemma wf_cell_at:
  assumes "wf_state (b, m, k)" "0 \<le> r" "r < m" "0 \<le> c" "c < m"
  shows "cell_at b r c = Inr (b ! nat r ! nat c)"
proof -
  from assms have r: "nat r < length b" by (simp add: wf_state_def)
  with assms have "length (b ! nat r) = nat m"
    by (simp add: wf_state_def list_all_length)
  with assms r show ?thesis by (simp add: cell_at_nonneg)
qed

definition cell_of :: "board \<Rightarrow> action \<Rightarrow> cell" where
  "cell_of b p = b ! nat (fst p) ! nat (snd p)"

lemma wf_player:
  assumes "wf_state (b, m, k)"
  shows "player (b, m, k) =
    Inr (if length (filter (\<lambda>x. x \<noteq> None) (map (cell_of b) (positions m))) mod 2 = 0 then SymX else SymO)"
proof -
  have "collect (map (\<lambda>(r, c). cell_at b r c) (positions m)) = Inr (map (cell_of b) (positions m))"
    by (rule collect_map_Inr) (auto simp: set_positions cell_of_def wf_cell_at [OF assms])
  then show ?thesis by (simp add: player_def)
qed

definition empty_cells :: "board \<Rightarrow> int \<Rightarrow> action list" where
  "empty_cells b m = filter (\<lambda>p. cell_of b p = None) (positions m)"

text \<open>The geometric band of a cell, in the words of the specification: the centre
  cell is 0, a corner 1, another cell of the border 2, every other cell 3.\<close>

definition band :: "int \<Rightarrow> action \<Rightarrow> int" where
  "band m a = (case a of (r, c) \<Rightarrow>
     (if (r, c) = (m div 2, m div 2) then 0
      else if (r = 0 \<or> r = m - 1) \<and> (c = 0 \<or> c = m - 1) then 1
      else if r = 0 \<or> r = m - 1 \<or> c = 0 \<or> c = m - 1 then 2
      else 3))"

lemma wf_actions:
  assumes "wf_state (b, m, k)"
  shows "actions (b, m, k) = Inr (sort (empty_cells b m))"
proof -
  have "collect (map (\<lambda>(r, c). map_sum id (\<lambda>x. ((r, c), x)) (cell_at b r c)) (positions m))
        = Inr (map (\<lambda>p. (p, cell_of b p)) (positions m))"
    by (rule collect_map_Inr) (auto simp: set_positions cell_of_def wf_cell_at [OF assms])
  moreover have "map fst (filter (\<lambda>(p, x). x = None) (map (\<lambda>p. (p, cell_of b p)) (positions m)))
        = empty_cells b m"
    unfolding empty_cells_def by (induction "positions m") (auto simp: filter_map o_def)
  ultimately show ?thesis by (simp add: actions_def)
qed


lemma wf_diag_down:
  "wf_state (b, m, k) \<Longrightarrow> 0 \<le> r \<Longrightarrow> 0 \<le> c \<Longrightarrow> \<exists>xs. diag_down b m r c = Inr xs"
proof (induction b m r c rule: diag_down.induct)
  case (1 board m r c)
  show ?case
  proof (cases "r < m \<and> c < m")
    case True
    with 1 obtain xs where "diag_down board m (r + 1) (c + 1) = Inr xs"
      by (auto simp: wf_cell_at)
    with True 1(2-4) show ?thesis
      by (subst diag_down.simps) (simp add: wf_cell_at)
  next
    case False
    then show ?thesis by (subst diag_down.simps) auto
  qed
qed

lemma wf_diag_up:
  "wf_state (b, m, k) \<Longrightarrow> 0 \<le> r \<Longrightarrow> c < m \<Longrightarrow> \<exists>xs. diag_up b m r c = Inr xs"
proof (induction b m r c rule: diag_up.induct)
  case (1 board m r c)
  show ?case
  proof (cases "r < m \<and> c \<ge> 0")
    case True
    with 1 obtain xs where "diag_up board m (r + 1) (c - 1) = Inr xs"
      by (auto simp: wf_cell_at)
    with True 1(2-4) show ?thesis
      by (subst diag_up.simps) (simp add: wf_cell_at)
  next
    case False
    then show ?thesis by (subst diag_up.simps) auto
  qed
qed

lemma wf_board_lines:
  assumes "wf_state (b, m, k)" "x \<in> set (board_lines (b, m, k))"
  shows "\<exists>line. snd x = Inr line"
proof -
  have row: "\<And>r. 0 \<le> r \<Longrightarrow> r < m \<Longrightarrow> \<exists>line. py_index b r = Inr line"
    using assms(1) by (simp add: py_index_nonneg wf_state_def)
  have col: "\<And>c. 0 \<le> c \<Longrightarrow> c < m \<Longrightarrow>
      \<exists>line. collect (map (\<lambda>r. cell_at b r c) [0..m - 1]) = Inr line"
  proof -
    fix c :: int assume c: "0 \<le> c" "c < m"
    have "collect (map (\<lambda>r. cell_at b r c) [0..m - 1]) = Inr (map (\<lambda>r. b ! nat r ! nat c) [0..m - 1])"
      by (rule collect_map_Inr) (use c in \<open>auto simp: wf_cell_at [OF assms(1)]\<close>)
    then show "\<exists>line. collect (map (\<lambda>r. cell_at b r c) [0..m - 1]) = Inr line" by blast
  qed
  from assms(2) show ?thesis
    unfolding board_lines_def
    by (auto simp: row col wf_diag_down [OF assms(1)] wf_diag_up [OF assms(1)])
qed

lemma scan_lines_Inr:
  "(\<And>x. x \<in> set ls \<Longrightarrow> \<exists>line. snd x = Inr line) \<Longrightarrow> \<exists>w. scan_lines m k ls = Inr w"
proof (induction ls)
  case Nil
  then show ?case by simp
next
  case (Cons x ls)
  obtain d l where x: "x = (d, l)" by (cases x)
  with Cons.prems obtain line where "l = Inr line" by force
  with Cons x show ?case by (auto split: option.splits)
qed

lemma wf_winner: "wf_state s \<Longrightarrow> \<exists>w. winner s = Inr w"
  by (cases s) (auto simp: winner_def intro!: scan_lines_Inr wf_board_lines)

lemma all_filled_Inr:
  "all_filled (map Inr cs) = Inr (list_all (\<lambda>x. x \<noteq> None) cs)"
proof (induction cs)
  case Nil
  then show ?case by simp
next
  case (Cons x cs)
  then show ?case by (cases x) auto
qed

lemma wf_all_filled:
  assumes "wf_state (b, m, k)"
  shows "all_filled (map (\<lambda>(r, c). cell_at b r c) (positions m)) = Inr (empty_cells b m = [])"
proof -
  have eq: "map (\<lambda>(r, c). cell_at b r c) (positions m) = map Inr (map (cell_of b) (positions m))"
    by (auto simp: set_positions cell_of_def wf_cell_at [OF assms])
  have "list_all (\<lambda>x. x \<noteq> None) (map (cell_of b) (positions m)) = (empty_cells b m = [])"
    by (simp add: empty_cells_def list_all_iff filter_empty_conv)
  then show ?thesis
    unfolding eq all_filled_Inr by simp
qed

lemma wf_terminal:
  assumes "wf_state (b, m, k)"
  shows "terminal (b, m, k) = (case winner (b, m, k) of Inl e \<Rightarrow> Inl e
           | Inr (Some w) \<Rightarrow> Inr True | Inr None \<Rightarrow> Inr (empty_cells b m = []))"
  by (simp add: terminal_def wf_all_filled [OF assms] split: sum.splits option.splits)

lemma wf_utility: "wf_state s \<Longrightarrow> \<exists>u. utility s = Inr u"
proof -
  assume wf: "wf_state s"
  obtain b m k where s: "s = (b, m, k)" by (cases s) auto
  from wf_winner [OF wf] obtain w where "winner s = Inr w" by blast
  with wf s show ?thesis
    by (auto simp: utility_def wf_terminal split: option.splits sym.splits bool.splits)
qed

lemma wf_utility_None:
  assumes "wf_state (b, m, k)" "utility (b, m, k) = Inr None"
  shows "winner (b, m, k) = Inr None \<and> empty_cells b m \<noteq> []"
  using assms by (auto simp: utility_def wf_terminal split: sum.splits option.splits sym.splits if_splits bool.splits)

lemma set_empty_cells:
  "set (empty_cells b m) = {(r, c). 0 \<le> r \<and> r < m \<and> 0 \<le> c \<and> c < m \<and> b ! nat r ! nat c = None}"
  by (auto simp: empty_cells_def set_positions cell_of_def)

lemma wf_result:
  assumes wf: "wf_state (b, m, k)" and a: "a \<in> set (empty_cells b m)"
  shows "\<exists>s'. result (b, m, k) a = Inr s'"
proof -
  obtain r c where rc: "a = (r, c)" by (cases a)
  from a rc have rng: "0 \<le> r" "r < m" "0 \<le> c" "c < m" and e: "b ! nat r ! nat c = None"
    by (auto simp: set_empty_cells)
  from wf_cell_at [OF wf rng] e have "cell_at b r c = Inr None" by simp
  moreover from wf_player [OF wf] obtain cur where "player (b, m, k) = Inr cur" by blast
  ultimately show ?thesis using rng rc by (simp add: result_def)
qed

lemma result_wf:
  assumes wf: "wf_state s" and res: "result s a = Inr s'"
  shows "wf_state s'"
proof -
  obtain b m k where s: "s = (b, m, k)" by (cases s) auto
  obtain r c where a: "a = (r, c)" by (cases a) auto
  from result_Inr [OF res [unfolded s a]]
  obtain cur where s': "s' = (b[nat r := (b ! nat r)[nat c := Some cur]], m, k)" by blast
  from wf s have len: "length b = nat m" and rows: "\<And>n. n < nat m \<Longrightarrow> length (b ! n) = nat m"
    by (auto simp: wf_state_def list_all_length)
  have "length (b[nat r := (b ! nat r)[nat c := Some cur]] ! n) = nat m" if "n < nat m" for n
    using that len rows by (cases "n = nat r") auto
  with len show ?thesis
    unfolding s' wf_state_def by (simp add: list_all_length)
qed

lemma wf_legal_result:
  assumes "wf_state s" "actions s = Inr moves" "a \<in> set moves"
  shows "\<exists>s'. result s a = Inr s' \<and> wf_state s' \<and> Suc (empties s') = empties s"
proof -
  obtain b m k where s: "s = (b, m, k)" by (cases s) auto
  from assms s have "a \<in> set (empty_cells b m)" by (auto simp: wf_actions)
  from wf_result [OF assms(1) [unfolded s] this] obtain s' where "result s a = Inr s'"
    using s by blast
  with assms(1) show ?thesis by (auto intro: result_wf result_empties)
qed

lemma collect_all_Inr:
  "(\<And>x. x \<in> set xs \<Longrightarrow> \<exists>y. x = Inr y) \<Longrightarrow> \<exists>ys. collect xs = Inr ys"
proof (induction xs)
  case Nil
  then show ?case by simp
next
  case (Cons x xs)
  then obtain y ys where "x = Inr y" "collect xs = Inr ys" by (metis list.set_intros)
  then show ?case by simp
qed

lemma order_moves_actions:
  "order_moves s flag = (case actions s of Inl e \<Rightarrow> Inl e
                         | Inr moves \<Rightarrow> Inr (sort_key (priority s flag) moves))"
  by (simp add: order_moves_def)

lemma order_moves_Inr:
  "order_moves s flag = Inr xs \<Longrightarrow> \<exists>moves. actions s = Inr moves \<and> mset xs = mset moves"
  by (auto simp: order_moves_def split: sum.splits)

lemma wf_legal_order:
  assumes "wf_state s" "order_moves s flag = Inr moves" "a \<in> set moves"
  shows "\<exists>s'. result s a = Inr s' \<and> wf_state s' \<and> Suc (empties s') = empties s"
proof -
  from order_moves_Inr [OF assms(2)] obtain as where as: "actions s = Inr as" "mset moves = mset as"
    by blast
  from as(2) assms(3) have "a \<in> set as" by (metis mset_eq_setD)
  from wf_legal_result [OF assms(1) as(1) this] show ?thesis .
qed

lemma priority_no_probe: "priority (b, m, k) False a = (band m a, Fin 0, a)"
  by (cases a) (simp add: priority_def band_def)

lemma priority_probe:
  "result (b, m, k) a = Inr s' \<Longrightarrow>
   priority (b, m, k) True a
     = (band m a, float_neg (case evaluate s' ''X'' of Inl e \<Rightarrow> Fin 0 | Inr p \<Rightarrow> p), a)"
  by (cases a) (simp add: priority_def band_def)

lemma inj_priority: "inj (priority s flag)"
  by (rule injI) (auto simp: priority_def Let_def split: prod.splits)

lemma sorted_key_unique:
  assumes "inj f" "mset ys = mset xs" "sorted (map f ys)" "sorted (map f xs)" "distinct xs"
  shows "ys = xs"
proof -
  from assms(2,5) have dy: "distinct ys" by (metis mset_eq_imp_distinct_iff)
  have "map f ys = map f xs"
  proof (rule sorted_distinct_set_unique)
    show "set (map f ys) = set (map f xs)" using assms(2) by (metis mset_eq_setD set_map)
  qed (use assms dy in \<open>auto simp: distinct_map inj_on_def dest: injD\<close>)
  with assms(1) show ?thesis by (simp add: inj_map_eq_map)
qed

lemma distinct_positions: "distinct (positions m)"
  unfolding positions_def
  by (rule distinct_concat) (auto simp: distinct_map inj_on_def)

lemma distinct_empty_cells: "distinct (empty_cells b m)"
  by (simp add: empty_cells_def distinct_positions)

lemma wf_actions_distinct: "wf_state s \<Longrightarrow> actions s = Inr moves \<Longrightarrow> distinct moves"
  by (cases s) (auto simp: wf_actions distinct_empty_cells)


lemma priority_with_band:
  "priority_with res ev (b, m, k) flag a
     = (band m a,
        float_neg (if flag
                   then (case res (b, m, k) a of
                           Inl e \<Rightarrow> Fin 0
                         | Inr s \<Rightarrow> (case ev s of Inl e \<Rightarrow> Fin 0 | Inr p \<Rightarrow> p))
                   else Fin 0),
        a)"
  by (cases a) (simp add: priority_with_def band_def)

lemma priority_with_result: "priority_with result evaluate_default = priority"
  unfolding priority_with_def priority_def evaluate_default_def by (rule refl)

lemma order_moves_with_result: "order_moves_with result evaluate_default = order_moves"
  unfolding order_moves_with_def order_moves_def priority_with_result by (rule refl)

lemma priority_with_no_probe: "priority_with res ev (b, m, k) False a = (band m a, Fin 0, a)"
  by (simp add: priority_with_band)

lemma priority_with_refused:
  "res (b, m, k) a = Inl e \<Longrightarrow> priority_with res ev (b, m, k) flag a = (band m a, Fin 0, a)"
  by (simp add: priority_with_band)

lemma priority_with_failed:
  "res (b, m, k) a = Inr s' \<Longrightarrow> ev s' = Inl e
   \<Longrightarrow> priority_with res ev (b, m, k) flag a = (band m a, Fin 0, a)"
  by (simp add: priority_with_band)

section \<open>The values seen by the top-level loop of \<open>minimax_ab\<close>\<close>

text \<open>
  \<open>minimax_ab_explored\<close> lists, in explored order, each top-level action with the
  value that the pruned search returned for it (under the window of that moment; the
  running \<open>best_val\<close> is the maximum, or minimum, of the values so far).
\<close>

fun minimax_ab_top_max_vals ::
  "bool \<Rightarrow> state \<Rightarrow> action list \<Rightarrow> val \<Rightarrow> val \<Rightarrow> val \<Rightarrow> Instrument \<Rightarrow> (action \<times> val) list" where
  "minimax_ab_top_max_vals use_ordering state [] best_val alpha beta instrument = []"
| "minimax_ab_top_max_vals use_ordering state (a # moves) best_val alpha beta instrument =
     (case result state a of
        Inl e \<Rightarrow> []
      | Inr s' \<Rightarrow>
          (case minimax_ab_min_value use_ordering s' alpha beta instrument of
             Inl e \<Rightarrow> []
           | Inr (val, instrument') \<Rightarrow>
               (a, val) # minimax_ab_top_max_vals use_ordering state moves (max best_val val)
                            (max alpha (max best_val val)) beta instrument'))"

fun minimax_ab_top_min_vals ::
  "bool \<Rightarrow> state \<Rightarrow> action list \<Rightarrow> val \<Rightarrow> val \<Rightarrow> val \<Rightarrow> Instrument \<Rightarrow> (action \<times> val) list" where
  "minimax_ab_top_min_vals use_ordering state [] best_val alpha beta instrument = []"
| "minimax_ab_top_min_vals use_ordering state (a # moves) best_val alpha beta instrument =
     (case result state a of
        Inl e \<Rightarrow> []
      | Inr s' \<Rightarrow>
          (case minimax_ab_max_value use_ordering s' alpha beta instrument of
             Inl e \<Rightarrow> []
           | Inr (val, instrument') \<Rightarrow>
               (a, val) # minimax_ab_top_min_vals use_ordering state moves (min best_val val)
                            alpha (min beta (min best_val val)) instrument'))"

definition minimax_ab_explored :: "state \<Rightarrow> bool \<Rightarrow> (action \<times> val) list" where
  "minimax_ab_explored state use_ordering =
     (case (player state, order_moves state use_ordering) of
        (Inr cur, Inr moves) \<Rightarrow>
          (if cur = SymX
           then minimax_ab_top_max_vals use_ordering state moves NegInf NegInf PosInf \<lparr>node_count = 0\<rparr>
           else minimax_ab_top_min_vals use_ordering state moves PosInf NegInf PosInf \<lparr>node_count = 0\<rparr>)
      | _ \<Rightarrow> [])"


section \<open>Concrete states\<close>

text \<open>A 2 by 2 board with \<open>k = 2\<close> on which X has completed the top row and one cell
  is still empty.\<close>

definition won_state :: state where
  "won_state = ([[Some SymX, Some SymX], [Some SymO, None]], 2, 2)"


text \<open>The drawn board of the repository's own test \<open>test_draw\<close>, and the board after
  X has opened in the corner \<open>(0, 0)\<close>.\<close>

definition draw_state :: state where
  "draw_state = ([[Some SymX, Some SymO, Some SymX],
                  [Some SymX, Some SymO, Some SymO],
                  [Some SymO, Some SymX, Some SymX]], 3, 3)"

definition opened_state :: state where
  "opened_state = ([[Some SymX, None, None], [None, None, None], [None, None, None]], 3, 3)"

text \<open>A board with two empty cells, the centre and the corner \<open>(0, 0)\<close>, O to move;
  either move ends in a draw.\<close>

definition tie_state :: state where
  "tie_state = ([[None, Some SymX, Some SymO],
                 [Some SymO, None, Some SymX],
                 [Some SymX, Some SymO, Some SymX]], 3, 3)"

text \<open>X holds \<open>(0, 0)\<close>, \<open>(0, 1)\<close> and the centre, O holds \<open>(0, 2)\<close> and \<open>(1, 2)\<close>; O is to
  move and wins at once at \<open>(2, 2)\<close>, and loses after any other move (X then takes
  \<open>(2, 2)\<close> or \<open>(2, 1)\<close>). \<open>second_state\<close> is the board after O's move \<open>(1, 0)\<close>.\<close>

definition first_state :: state where
  "first_state = ([[Some SymX, Some SymX, Some SymO],
                   [None, Some SymX, Some SymO],
                   [None, None, None]], 3, 3)"

definition second_state :: state where
  "second_state = ([[Some SymX, Some SymX, Some SymO],
                    [Some SymO, Some SymX, Some SymO],
                    [None, None, None]], 3, 3)"

text \<open>The bottom row is empty and X is to move: the heuristic prefers \<open>(2, 2)\<close>, which
  is also the only move that does not lose.\<close>

definition last_row_state :: state where
  "last_row_state = ([[Some SymO, Some SymX, Some SymX],
                      [Some SymX, Some SymO, Some SymO],
                      [None, None, None]], 3, 3)"

text \<open>A rules oracle that agrees with \<open>result\<close>, except that it refuses the action
  \<open>a0\<close> with \<open>result\<close>'s own illegal-action error.\<close>

definition refusing_result :: "action \<Rightarrow> state \<Rightarrow> action \<Rightarrow> error + state" where
  "refusing_result a0 state a =
     (if a = a0 then Inl (ValueError ''Action not legal'') else result state a)"

text \<open>The heuristic score of the successor of \<open>state\<close> under \<open>a\<close>, as a one-ply
  lookahead would compute it.\<close>

definition successor_score :: "eval_fn \<Rightarrow> state \<Rightarrow> action \<Rightarrow> error + val" where
  "successor_score eval_fn state a =
     (case result state a of Inl e \<Rightarrow> Inl e | Inr s' \<Rightarrow> eval_fn s')"

text \<open>An evaluation function that raises whenever the search calls it.\<close>

definition no_eval :: eval_fn where
  "no_eval s = Inl (ValueError ''cutoff'')"

section \<open>The claims\<close>

subsection \<open>C9: the sink is a side channel\<close>

lemma reset_any: "reset (i :: Instrument) = \<lparr>node_count = 0\<rparr>"
  by (cases i) (simp add: reset_def)


text \<open>
  C9. The pair \<open>(value, action)\<close> returned by \<open>minimax\<close>, \<open>minimax_ab\<close> and
  \<open>search\<close> does not depend on the sink: a sink with any prior counter, another
  sink, and the default \<open>instrument=None\<close> give the same result (the same pair, the
  same final counter, or the same exception), because the sink is reset on entry and
  never read.
\<close>

theorem sink_never_affects_outcome:
  "minimax state (Some instrument) = minimax state None
   \<and> minimax_ab state (Some instrument) use_ordering = minimax_ab state None use_ordering
   \<and> search state depth eval_fn (Some instrument) use_ordering
       = search state depth eval_fn None use_ordering
   \<and> minimax state (Some instrument) = minimax state (Some instrument')
   \<and> minimax_ab state (Some instrument) use_ordering = minimax_ab state (Some instrument') use_ordering
   \<and> search state depth eval_fn (Some instrument) use_ordering
       = search state depth eval_fn (Some instrument') use_ordering"
  by (simp add: minimax_def minimax_ab_def search_def reset_any)


subsection \<open>C10: legal moves of a won position\<close>

text \<open>
  C10. On a valid state that already has a winner and still has empty cells,
  \<open>actions\<close> returns exactly the empty cells (it is not gated on terminality), and
  \<open>result\<close> succeeds on each of them, filling one more cell of a game that is
  already won.
\<close>

theorem actions_ignore_winner:
  assumes "wf_state (b, m, k)" and "winner (b, m, k) = Inr (Some w)" and "empty_cells b m \<noteq> []"
  shows "\<exists>moves. actions (b, m, k) = Inr moves \<and> moves \<noteq> []
           \<and> set moves = {(r, c). 0 \<le> r \<and> r < m \<and> 0 \<le> c \<and> c < m \<and> b ! nat r ! nat c = None}
           \<and> (\<forall>a \<in> set moves. \<exists>s'. result (b, m, k) a = Inr s' \<and> wf_state s'
                                      \<and> Suc (empties s') = empties (b, m, k))"
proof -
  have a: "actions (b, m, k) = Inr (sort (empty_cells b m))"
    by (rule wf_actions [OF assms(1)])
  have "sort (empty_cells b m) \<noteq> []" using assms(3) by (metis length_sort length_0_conv)
  moreover have "set (sort (empty_cells b m)) = {(r, c). 0 \<le> r \<and> r < m \<and> 0 \<le> c \<and> c < m \<and> b ! nat r ! nat c = None}"
    by (simp add: set_empty_cells)
  moreover have "\<forall>a \<in> set (sort (empty_cells b m)). \<exists>s'. result (b, m, k) a = Inr s' \<and> wf_state s'
                                      \<and> Suc (empties s') = empties (b, m, k)"
    using wf_legal_result [OF assms(1) a] by blast
  ultimately show ?thesis using a by blast
qed

theorem actions_ignore_winner_witness:
  "wf_state won_state \<and> winner won_state = Inr (Some SymX)
   \<and> (\<exists>moves. actions won_state = Inr moves \<and> moves \<noteq> []
         \<and> (\<forall>a \<in> set moves. \<exists>s'. result won_state a = Inr s' \<and> wf_state s'
                                      \<and> Suc (empties s') = empties won_state))"
proof -
  have h1: "wf_state ([[Some SymX, Some SymX], [Some SymO, None]], 2, 2)" by code_simp
  have h2: "winner ([[Some SymX, Some SymX], [Some SymO, None]], 2, 2) = Inr (Some SymX)" by code_simp
  have h3: "empty_cells [[Some SymX, Some SymX], [Some SymO, None]] 2 \<noteq> []" by code_simp
  from actions_ignore_winner [OF h1 h2 h3] h1 h2 show ?thesis
    unfolding won_state_def by blast
qed



subsection \<open>C3: terminal states\<close>

text \<open>
  C3, as stated, fails. On the drawn board of \<open>test_draw\<close> the utility is 0, but the
  three top-level functions return the sentinel \<open>float('inf')\<close> (O is to move) with
  action \<open>None\<close> and a sink that never ticked: none of them tests the root for
  terminality, and the board has no legal action.
\<close>

theorem terminal_top_level_counterexample:
  "utility draw_state = Inr (Some 0)
   \<and> minimax draw_state None = Inr ((PosInf, None), \<lparr>node_count = 0\<rparr>)
   \<and> minimax_ab draw_state None True = Inr ((PosInf, None), \<lparr>node_count = 0\<rparr>)
   \<and> search draw_state 3 evaluate_default None True = Inr ((PosInf, None), \<lparr>node_count = 0\<rparr>)"
  by code_simp

lemma order_moves_Nil: "actions s = Inr [] \<Longrightarrow> order_moves s flag = Inr []"
  by (simp add: order_moves_def)


text \<open>
  C3, amended. On a terminal state the node evaluators \<open>max_value\<close> and \<open>min_value\<close>
  of the three variants return the exact utility and tick the sink exactly once. The
  top-level functions do not test the root: on a terminal state without legal action
  they return action \<open>None\<close>, the sentinel (\<open>-inf\<close> when X is to move, \<open>+inf\<close> when
  O is) as value, and the sink at 0.
\<close>

theorem terminal_node_short_circuit:
  assumes "utility s = Inr (Some u)"
  shows "minimax_max_value s i = Inr (Fin (of_int u), tick i)
       \<and> minimax_min_value s i = Inr (Fin (of_int u), tick i)
       \<and> minimax_ab_max_value ord s alpha beta i = Inr (Fin (of_int u), tick i)
       \<and> minimax_ab_min_value ord s alpha beta i = Inr (Fin (of_int u), tick i)
       \<and> search_max_value ev ord s alpha beta d i = Inr (Fin (of_int u), tick i)
       \<and> search_min_value ev ord s alpha beta d i = Inr (Fin (of_int u), tick i)
       \<and> (player s = Inr cur \<and> actions s = Inr [] \<longrightarrow>
            minimax s inst
              = Inr ((if cur = SymX then NegInf else PosInf, None), \<lparr>node_count = 0\<rparr>)
          \<and> minimax_ab s inst ord
              = Inr ((if cur = SymX then NegInf else PosInf, None), \<lparr>node_count = 0\<rparr>)
          \<and> search s d ev inst ord
              = Inr ((if cur = SymX then NegInf else PosInf, None), \<lparr>node_count = 0\<rparr>))"
  using assms
  by (simp add: minimax_max_value.simps minimax_ab_max_value.simps search_max_value.simps
        minimax_min_value.simps minimax_ab_min_value.simps search_min_value.simps
        minimax_def minimax_ab_def search_def order_moves_Nil reset_any)

theorem terminal_node_short_circuit_witness:
  "utility draw_state = Inr (Some 0) \<and> player draw_state = Inr SymO \<and> actions draw_state = Inr []
   \<and> minimax_max_value draw_state new_Instrument = Inr (Fin 0, \<lparr>node_count = 1\<rparr>)
   \<and> minimax_ab draw_state None True = Inr ((PosInf, None), \<lparr>node_count = 0\<rparr>)"
proof -
  have h1: "utility draw_state = Inr (Some 0)" by code_simp
  have h2: "player draw_state = Inr SymO" by code_simp
  have h3: "actions draw_state = Inr []" by code_simp
  from terminal_node_short_circuit [OF h1, of new_Instrument True NegInf PosInf evaluate_default 0 SymO None]
    h1 h2 h3
  show ?thesis by (simp add: tick_def new_Instrument_def)
qed


subsection \<open>C7: the move orderer\<close>

text \<open>
  C7. On a valid state and for either value of the probe flag, \<open>_order_moves\<close> returns
  a permutation of \<open>actions(state)\<close>, sorted ascending by the key of \<open>priority\<close>. On
  every legal action \<open>result\<close> succeeds and the key is (geometric band, negated probe
  when the flag is set and 0 otherwise, the action itself), where the probe is the
  float that \<open>evaluate\<close> returns for the successor, or the neutral 0 when \<open>evaluate\<close>
  raises. The key determines the order: every sorted arrangement of the legal actions
  is the list returned, so two calls agree.
\<close>

theorem order_moves_sorted_permutation:
  assumes "wf_state (b, m, k)"
  shows "\<exists>moves xs. actions (b, m, k) = Inr moves \<and> order_moves (b, m, k) flag = Inr xs
     \<and> mset xs = mset moves
     \<and> sorted (map (priority (b, m, k) flag) xs)
     \<and> (\<forall>a \<in> set moves. \<exists>s'. result (b, m, k) a = Inr s'
            \<and> priority (b, m, k) flag a
                = (band m a,
                   (if flag then float_neg (case evaluate s' ''X'' of Inl e \<Rightarrow> Fin 0 | Inr p \<Rightarrow> p)
                    else Fin 0),
                   a))
     \<and> (\<forall>ys. mset ys = mset moves \<and> sorted (map (priority (b, m, k) flag) ys) \<longrightarrow> ys = xs)"
proof -
  let ?s = "(b, m, k)"
  let ?moves = "sort (empty_cells b m)"
  let ?xs = "sort_key (priority ?s flag) ?moves"
  have a: "actions ?s = Inr ?moves" by (rule wf_actions [OF assms])
  have o: "order_moves ?s flag = Inr ?xs" by (simp add: order_moves_def a)
  have key: "\<exists>s'. result ?s a = Inr s'
            \<and> priority ?s flag a
                = (band m a,
                   (if flag then float_neg (case evaluate s' ''X'' of Inl e \<Rightarrow> Fin 0 | Inr p \<Rightarrow> p)
                    else Fin 0),
                   a)"
    if "a \<in> set ?moves" for a
  proof -
    from wf_legal_result [OF assms a that] obtain s' where s': "result ?s a = Inr s'"
      by blast
    have "priority ?s flag a
                = (band m a,
                   (if flag then float_neg (case evaluate s' ''X'' of Inl e \<Rightarrow> Fin 0 | Inr p \<Rightarrow> p)
                    else Fin 0),
                   a)"
      using s' by (cases flag) (simp_all add: priority_probe priority_no_probe)
    with s' show ?thesis by blast
  qed
  have uniq: "ys = ?xs" if "mset ys = mset ?moves" "sorted (map (priority ?s flag) ys)" for ys
  proof (rule sorted_key_unique [OF inj_priority])
    show "mset ys = mset ?xs" using that(1) by simp
    show "distinct ?xs" by (simp add: distinct_empty_cells)
  qed (use that in auto)
  show ?thesis
    using a o key uniq by (intro exI [of _ ?moves] exI [of _ ?xs]) auto
qed

theorem order_moves_sorted_permutation_witness:
  "wf_state last_row_state
   \<and> actions last_row_state = Inr [(2, 0), (2, 1), (2, 2)]
   \<and> order_moves last_row_state True = Inr [(2, 2), (2, 0), (2, 1)]
   \<and> map (priority last_row_state True) [(2, 2), (2, 0), (2, 1)]
       = [(1, Fin (- (5 / 4)), (2, 2)), (1, Fin (45 / 4), (2, 0)), (2, Fin (45 / 4), (2, 1))]
   \<and> sorted (map (priority last_row_state True) [(2, 2), (2, 0), (2, 1)])"
proof -
  have h: "wf_state last_row_state" by code_simp
  have a: "actions last_row_state = Inr [(2, 0), (2, 1), (2, 2)]" by code_simp
  have o: "order_moves last_row_state True = Inr [(2, 2), (2, 0), (2, 1)]" by code_simp
  have p: "map (priority last_row_state True) [(2, 2), (2, 0), (2, 1)]
       = [(1, Fin (- (5 / 4)), (2, 2)), (1, Fin (45 / 4), (2, 0)), (2, Fin (45 / 4), (2, 1))]"
    by code_simp
  have "sorted (map (priority last_row_state True) [(2, 2), (2, 0), (2, 1)])"
    using order_moves_sorted_permutation [OF h [unfolded last_row_state_def], of True] o
    unfolding last_row_state_def by auto
  with h a o p show ?thesis by blast
qed


subsection \<open>C5: errors during the heuristic probe\<close>

text \<open>
  C5 says that an illegal-action error of \<open>result\<close>, raised while \<open>_order_moves\<close>
  probes an action, propagates out of \<open>_order_moves\<close>. With the repository's own
  \<open>result\<close> no listed action is ever refused, so the case needs a rules oracle that
  refuses one: after X's opening in the corner, let the oracle refuse the edge
  \<open>(0, 1)\<close>, which \<open>actions\<close> lists. \<open>_order_moves\<close> then returns normally, with
  \<open>(0, 1)\<close> moved behind the other edges; nothing propagates.
\<close>

theorem refused_action_masked_counterexample:
  "actions opened_state = Inr [(0, 1), (0, 2), (1, 0), (1, 1), (1, 2), (2, 0), (2, 1), (2, 2)]
   \<and> refusing_result (0, 1) opened_state (0, 1) = Inl (ValueError ''Action not legal'')
   \<and> order_moves_with (refusing_result (0, 1)) evaluate_default opened_state True
       = Inr [(1, 1), (0, 2), (2, 0), (2, 2), (1, 0), (1, 2), (2, 1), (0, 1)]
   \<and> order_moves opened_state True
       = Inr [(1, 1), (0, 2), (2, 0), (2, 2), (0, 1), (1, 0), (1, 2), (2, 1)]"
proof -
  have h1: "actions opened_state
      = Inr [(0, 1), (0, 2), (1, 0), (1, 1), (1, 2), (2, 0), (2, 1), (2, 2)]"
    by code_simp
  have h2: "refusing_result (0, 1) opened_state (0, 1) = Inl (ValueError ''Action not legal'')"
    by (simp add: refusing_result_def)
  have h3: "order_moves_with (refusing_result (0, 1)) evaluate_default opened_state True
       = Inr [(1, 1), (0, 2), (2, 0), (2, 2), (1, 0), (1, 2), (2, 1), (0, 1)]"
    by code_simp
  have h4: "order_moves opened_state True
       = Inr [(1, 1), (0, 2), (2, 0), (2, 2), (0, 1), (1, 0), (1, 2), (2, 1)]"
    by code_simp
  from h1 h2 h3 h4 show ?thesis by blast
qed

text \<open>
  C5, amended. Whatever \<open>result\<close> and \<open>evaluate\<close> do while an action is probed,
  \<open>_order_moves\<close> returns a permutation of \<open>actions(state)\<close> sorted by the keys, and
  raises only when \<open>actions(state)\<close> raises. An action on which \<open>result\<close> raises (the
  illegal-action error included), or on whose successor \<open>evaluate\<close> raises, has the
  neutral probe 0: its key is (band, 0, action), as with the probe switched off. With
  the repository's own \<open>result\<close>, on a valid state, no listed action is refused.
\<close>

theorem probe_failures_masked:
  assumes "actions (b, m, k) = Inr moves"
  shows "\<exists>xs. order_moves_with res ev (b, m, k) flag = Inr xs
     \<and> mset xs = mset moves
     \<and> sorted (map (priority_with res ev (b, m, k) flag) xs)
     \<and> (\<forall>a \<in> set moves. \<forall>e. res (b, m, k) a = Inl e
            \<longrightarrow> priority_with res ev (b, m, k) flag a = (band m a, Fin 0, a)
              \<and> priority_with res ev (b, m, k) flag a = priority_with res ev (b, m, k) False a)
     \<and> (\<forall>a \<in> set moves. \<forall>s' e. res (b, m, k) a = Inr s' \<and> ev s' = Inl e
            \<longrightarrow> priority_with res ev (b, m, k) flag a = (band m a, Fin 0, a))
     \<and> (wf_state (b, m, k) \<longrightarrow> (\<forall>a \<in> set moves. \<exists>s'. result (b, m, k) a = Inr s'))"
proof -
  let ?s = "(b, m, k)"
  let ?xs = "sort_key (priority_with res ev ?s flag) moves"
  have o: "order_moves_with res ev ?s flag = Inr ?xs"
    by (simp add: order_moves_with_def assms)
  have legal: "\<exists>s'. result ?s a = Inr s'" if "wf_state ?s" "a \<in> set moves" for a
    using wf_legal_result [OF that(1) assms that(2)] by blast
  show ?thesis
    using o legal
    by (intro exI [of _ ?xs])
       (auto simp: priority_with_refused priority_with_failed priority_with_no_probe)
qed

theorem probe_failures_masked_witness:
  "actions opened_state = Inr [(0, 1), (0, 2), (1, 0), (1, 1), (1, 2), (2, 0), (2, 1), (2, 2)]
   \<and> refusing_result (0, 1) opened_state (0, 1) = Inl (ValueError ''Action not legal'')
   \<and> priority_with (refusing_result (0, 1)) evaluate_default opened_state True (0, 1)
       = (2, Fin 0, (0, 1))
   \<and> priority_with (refusing_result (0, 1)) evaluate_default opened_state True (1, 0)
       = (2, Fin (- (5 / 4)), (1, 0))"
proof -
  have a: "actions opened_state
      = Inr [(0, 1), (0, 2), (1, 0), (1, 1), (1, 2), (2, 0), (2, 1), (2, 2)]"
    by code_simp
  have r: "refusing_result (0, 1) opened_state (0, 1) = Inl (ValueError ''Action not legal'')"
    by (simp add: refusing_result_def)
  have b: "band 3 (0, 1) = 2" by (simp add: band_def)
  have q: "priority_with (refusing_result (0, 1)) evaluate_default opened_state True (1, 0)
       = (2, Fin (- (5 / 4)), (1, 0))"
    by code_simp
  have "priority_with (refusing_result (0, 1)) evaluate_default opened_state True (0, 1)
       = (2, Fin 0, (0, 1))"
    using probe_failures_masked [OF a [unfolded opened_state_def],
        of "refusing_result (0, 1)" evaluate_default True] r b
    unfolding opened_state_def by auto
  with a r q show ?thesis by blast
qed


subsection \<open>C4: the tie-break of the top-level loop\<close>

lemma first_state_unordered:
  "minimax_ab first_state None False = Inr ((Fin (- 1), Some (1, 0)), \<lparr>node_count = 16\<rparr>)"
  by code_simp

text \<open>
  C4 fails in the code at \<open>first_state\<close> with \<open>use_ordering = False\<close>. The top-level
  loop explores \<open>(2, 0)\<close>, \<open>(2, 2)\<close>, \<open>(1, 0)\<close>, \<open>(2, 1)\<close> and sees the values
  \<open>1, -1, -1, -1\<close>: \<open>(2, 2)\<close> is the first explored action with the optimum \<open>-1\<close>, yet
  the later \<open>(1, 0)\<close>, whose value merely equals it, displaces it and is returned.
\<close>

theorem equal_value_displaces_first_optimum:
  "minimax_ab_explored first_state False
     = [((2, 0), Fin 1), ((2, 2), Fin (- 1)), ((1, 0), Fin (- 1)), ((2, 1), Fin (- 1))]
   \<and> minimax_ab first_state None False
     = Inr ((Fin (- 1), Some (1, 0)), \<lparr>node_count = 16\<rparr>)"
proof -
  have "minimax_ab_explored first_state False
     = [((2, 0), Fin 1), ((2, 2), Fin (- 1)), ((1, 0), Fin (- 1)), ((2, 1), Fin (- 1))]"
    by code_simp
  with first_state_unordered show ?thesis by blast
qed


subsection \<open>C1: pruning against plain minimax\<close>

text \<open>
  C1 fails in the code at \<open>first_state\<close>. The three searches agree on the value \<open>-1\<close>,
  but with \<open>use_ordering = False\<close> the pruned search returns \<open>(1, 0)\<close> where plain
  minimax and the ordered search return \<open>(2, 2)\<close>; and \<open>(1, 0)\<close> does not tie for the
  optimum: the position after it has the minimax value \<open>1\<close>, a win for X.
\<close>

theorem pruned_action_not_optimal:
  "minimax first_state None = Inr ((Fin (- 1), Some (2, 2)), \<lparr>node_count = 25\<rparr>)
   \<and> minimax_ab first_state None True = Inr ((Fin (- 1), Some (2, 2)), \<lparr>node_count = 10\<rparr>)
   \<and> minimax_ab first_state None False = Inr ((Fin (- 1), Some (1, 0)), \<lparr>node_count = 16\<rparr>)
   \<and> player first_state = Inr SymO
   \<and> result first_state (1, 0) = Inr second_state
   \<and> minimax_max_value second_state new_Instrument = Inr (Fin 1, \<lparr>node_count = 7\<rparr>)"
proof -
  have h1: "minimax first_state None = Inr ((Fin (- 1), Some (2, 2)), \<lparr>node_count = 25\<rparr>)"
    by code_simp
  have h2: "minimax_ab first_state None True
      = Inr ((Fin (- 1), Some (2, 2)), \<lparr>node_count = 10\<rparr>)"
    by code_simp
  have h3: "player first_state = Inr SymO" by code_simp
  have h4: "result first_state (1, 0) = Inr second_state" by code_simp
  have h5: "minimax_max_value second_state new_Instrument = Inr (Fin 1, \<lparr>node_count = 7\<rparr>)"
    by code_simp
  from h1 h2 first_state_unordered h3 h4 h5 show ?thesis by blast
qed


subsection \<open>C2: depth 0\<close>

text \<open>
  C2 fails in the code at \<open>last_row_state\<close>. X is to move and the successors under
  \<open>(2, 0)\<close>, \<open>(2, 1)\<close>, \<open>(2, 2)\<close> score \<open>-45/4\<close>, \<open>-45/4\<close>, \<open>5/4\<close>, so the one-ply choice is
  \<open>(2, 2)\<close> with the value \<open>5/4\<close>; that is what depth 1 returns, after 3 nodes. At
  depth 0 the top-level loop passes \<open>depth - 1 = -1\<close> to the children, whose test
  \<open>d == 0\<close> never holds: the search runs to the end of the game, visits 12 nodes (10
  with ordering) and returns the utility \<open>0\<close> with the action \<open>(2, 1)\<close>.
\<close>

theorem depth_zero_is_not_one_ply:
  "player last_row_state = Inr SymX
   \<and> actions last_row_state = Inr [(2, 0), (2, 1), (2, 2)]
   \<and> successor_score evaluate_default last_row_state (2, 0) = Inr (Fin (- (45 / 4)))
   \<and> successor_score evaluate_default last_row_state (2, 1) = Inr (Fin (- (45 / 4)))
   \<and> successor_score evaluate_default last_row_state (2, 2) = Inr (Fin (5 / 4))
   \<and> search last_row_state 0 evaluate_default None False
       = Inr ((Fin 0, Some (2, 1)), \<lparr>node_count = 12\<rparr>)
   \<and> search last_row_state 0 evaluate_default None True
       = Inr ((Fin 0, Some (2, 1)), \<lparr>node_count = 10\<rparr>)
   \<and> search last_row_state 1 evaluate_default None False
       = Inr ((Fin (5 / 4), Some (2, 2)), \<lparr>node_count = 3\<rparr>)"
proof -
  have h1: "player last_row_state = Inr SymX" by code_simp
  have h2: "actions last_row_state = Inr [(2, 0), (2, 1), (2, 2)]" by code_simp
  have h3: "successor_score evaluate_default last_row_state (2, 0) = Inr (Fin (- (45 / 4)))"
    by code_simp
  have h4: "successor_score evaluate_default last_row_state (2, 1) = Inr (Fin (- (45 / 4)))"
    by code_simp
  have h5: "successor_score evaluate_default last_row_state (2, 2) = Inr (Fin (5 / 4))"
    by code_simp
  have h6: "search last_row_state 0 evaluate_default None False
       = Inr ((Fin 0, Some (2, 1)), \<lparr>node_count = 12\<rparr>)"
    by code_simp
  have h7: "search last_row_state 0 evaluate_default None True
       = Inr ((Fin 0, Some (2, 1)), \<lparr>node_count = 10\<rparr>)"
    by code_simp
  have h8: "search last_row_state 1 evaluate_default None False
       = Inr ((Fin (5 / 4), Some (2, 2)), \<lparr>node_count = 3\<rparr>)"
    by code_simp
  from h1 h2 h3 h4 h5 h6 h7 h8 show ?thesis by blast
qed


subsection \<open>C8: the depth bound\<close>

text \<open>
  C8 fails in the code for the depth-limited mode at depth 0, on \<open>tie_state\<close>. The
  state has two legal actions, so a recursion bounded by the depth would visit at most
  the two children; the search visits 4 nodes, the grandchildren too. It never reaches
  a cutoff: with an evaluation function that raises whenever it is called, depth 0
  returns normally, while depth 1 calls it on the first child and raises.
\<close>

theorem depth_zero_is_unbounded:
  "actions tie_state = Inr [(0, 0), (1, 1)]
   \<and> search tie_state 0 no_eval None False = Inr ((Fin 0, Some (0, 0)), \<lparr>node_count = 4\<rparr>)
   \<and> search tie_state 1 no_eval None False = Inl (ValueError ''cutoff'')
   \<and> search tie_state 1 evaluate_default None False
       = Inr ((Fin 0, Some (0, 0)), \<lparr>node_count = 2\<rparr>)"
proof -
  have h1: "actions tie_state = Inr [(0, 0), (1, 1)]" by code_simp
  have h2: "search tie_state 0 no_eval None False
      = Inr ((Fin 0, Some (0, 0)), \<lparr>node_count = 4\<rparr>)"
    by code_simp
  have h3: "search tie_state 1 no_eval None False = Inl (ValueError ''cutoff'')"
    by code_simp
  have h4: "search tie_state 1 evaluate_default None False
       = Inr ((Fin 0, Some (0, 0)), \<lparr>node_count = 2\<rparr>)"
    by code_simp
  from h1 h2 h3 h4 show ?thesis by blast
qed

end
